theory Spec2Isabelle
  imports
    Complex_Main
    "HOL-Library.Char_ord"
    "HOL-Library.List_Lexorder"
    "HOL-Library.Multiset"
begin

section \<open>Data model (src/lib/supabase/types.ts)\<close>

text \<open>
  Rows of the \<^verbatim>\<open>shifts\<close> and \<^verbatim>\<open>availability\<close> tables. TypeScript strings are
  \<^typ>\<open>string\<close>; a nullable column is an \<^typ>\<open>'a option\<close>; the string-literal unions are
  datatypes. The field \<^verbatim>\<open>id\<close> and the fields both tables share carry the table's name,
  since record fields are global constants.
\<close>

datatype confirmation_status = Pending | Confirmed | Declined

datatype availability_status = Unavailable | Available | Preferred

text \<open>\<^verbatim>\<open>type AvailabilityStatus = 'unavailable' | 'available' | 'preferred' | null\<close>\<close>

type_synonym AvailabilityStatus = "availability_status option"

record Shift =
  shift_id :: string
  shift_date :: string
  assigned_pa_id :: string
  assigned_by_id :: string
  call_time :: "string option"
  wrap_time :: "string option"
  confirmation_status :: confirmation_status
  shift_created_at :: "string option"
  shift_updated_at :: "string option"

record Availability =
  avail_id :: string
  user_id :: string
  avail_date :: string
  status :: availability_status
  pa_note :: "string option"
  avail_created_at :: "string option"
  avail_updated_at :: "string option"

section \<open>Status model\<close>

text \<open>\<^verbatim>\<open>cycleStatus\<close> of pa-calendar.tsx: four tests in the order of the source.\<close>

definition cycleStatus :: "AvailabilityStatus \<Rightarrow> AvailabilityStatus" where
  "cycleStatus current =
     (if current = None then Some Unavailable
      else if current = Some Unavailable then Some Available
      else if current = Some Available then Some Preferred
      else None)"

text \<open>
  \<^verbatim>\<open>getStatusLabel(status, hasShift)\<close> of the PC grid: the shift test comes first, the
  \<^verbatim>\<open>switch\<close> on the status after it, with \<^verbatim>\<open>default\<close> for \<^verbatim>\<open>null\<close>.
\<close>

definition getStatusLabel :: "AvailabilityStatus \<Rightarrow> bool \<Rightarrow> string" where
  "getStatusLabel st hasShift =
     (if hasShift then ''Assigned''
      else (case st of
              Some Preferred \<Rightarrow> ''Preferred''
            | Some Available \<Rightarrow> ''Available''
            | Some Unavailable \<Rightarrow> ''Unavailable''
            | None \<Rightarrow> ''No data''))"

section \<open>Time-of-day strings\<close>

text \<open>
  \<^verbatim>\<open>String.prototype.split\<close> with a separator of one character: the pieces between the
  separators, so the result is never empty and \<^verbatim>\<open>"".split(":")\<close> is \<^verbatim>\<open>[""]\<close>.
\<close>

fun split_js :: "char \<Rightarrow> string \<Rightarrow> string list" where
  "split_js sep [] = [[]]"
| "split_js sep (c # cs) =
     (if c = sep then [] # split_js sep cs
      else (case split_js sep cs of
              [] \<Rightarrow> [[c]]
            | p # ps \<Rightarrow> (c # p) # ps))"

text \<open>
  \<^verbatim>\<open>formatTimeForDB\<close> of the PC grid. \<^verbatim>\<open>!timeStr\<close> holds for \<^verbatim>\<open>null\<close> and for the empty
  string; \<^verbatim>\<open>includes(':')\<close> is membership of the character.
\<close>

definition formatTimeForDB :: "string option \<Rightarrow> string option" where
  "formatTimeForDB timeStr =
     (case timeStr of
        None \<Rightarrow> None
      | Some t \<Rightarrow>
          if t = [] then None
          else if CHR '':'' \<in> set t \<and> length (split_js (CHR '':'') t) = 3 then Some t
          else if CHR '':'' \<in> set t \<and> length (split_js (CHR '':'') t) = 2 then Some (t @ '':00'')
          else None)"

text \<open>\<^verbatim>\<open>formatTime\<close> of pa-shifts.tsx (the daily overview has the same function).\<close>

definition formatTime :: "string option \<Rightarrow> string" where
  "formatTime timeStr =
     (case timeStr of
        None \<Rightarrow> ''Not set''
      | Some t \<Rightarrow>
          if t = [] then ''Not set''
          else (let parts = split_js (CHR '':'') t
                in if length parts \<ge> 2 then parts ! 0 @ '':'' @ parts ! 1 else t))"

text \<open>The shape \<^verbatim>\<open>HH:MM\<close> a time-of-day input field delivers: two digits, a colon, two digits.\<close>

definition isDigit :: "char \<Rightarrow> bool" where
  "isDigit c = (c \<in> set ''0123456789'')"

definition isHHMM :: "string \<Rightarrow> bool" where
  "isHHMM t =
     (length t = 5 \<and> isDigit (t ! 0) \<and> isDigit (t ! 1) \<and> t ! 2 = CHR '':'' \<and>
      isDigit (t ! 3) \<and> isDigit (t ! 4))"

section \<open>Invite codes (src/lib/utils/inviteCode.ts)\<close>

definition chars :: string where
  "chars = ''ABCDEFGHJKLMNPQRSTUVWXYZ23456789''"

text \<open>
  \<^verbatim>\<open>chars[k]\<close> appended to a string: the character at \<^verbatim>\<open>k\<close>, and the text
  \<^verbatim>\<open>undefined\<close> when \<^verbatim>\<open>k\<close> is out of range.
\<close>

definition charAt :: "string \<Rightarrow> int \<Rightarrow> string" where
  "charAt s k = (if 0 \<le> k \<and> k < int (length s) then [s ! nat k] else ''undefined'')"

text \<open>
  The loop of \<^verbatim>\<open>generateInviteCode\<close>, from counter \<^verbatim>\<open>i\<close> with the code built so far.
  \<^verbatim>\<open>rnd i\<close> is what \<^verbatim>\<open>Math.random()\<close> returns in iteration \<^verbatim>\<open>i\<close>; the product with
  \<^verbatim>\<open>chars.length\<close> = 32 is exact in binary floating point, so the reals model it.
\<close>

function generateInviteCode_loop :: "(nat \<Rightarrow> real) \<Rightarrow> nat \<Rightarrow> string \<Rightarrow> string" where
  "generateInviteCode_loop rnd i code =
     (if i < 6 then
        (let code1 = code @ charAt chars \<lfloor>rnd i * real (length chars)\<rfloor>;
             code2 = (if i = 2 then code1 @ ''-'' else code1)
         in generateInviteCode_loop rnd (i + 1) code2)
      else code)"
  by pat_completeness auto
termination
  by (relation "measure (\<lambda>(rnd, i, code). 6 - i)") auto

declare generateInviteCode_loop.simps [simp del]

definition generateInviteCode :: "(nat \<Rightarrow> real) \<Rightarrow> string" where
  "generateInviteCode rnd = generateInviteCode_loop rnd 0 ''''"

section \<open>Change-feed handlers\<close>

text \<open>
  A payload of the change feed, as the handlers read it: an insert carries the new row, an
  update the new row and the old one, a delete the old one. The old row is partial (the feed
  sends the columns of the replica identity), so its fields may be absent.
\<close>

record old_row =
  old_id :: "string option"
  old_date :: "string option"

datatype 'r payload = INSERT 'r | UPDATE 'r old_row | DELETE old_row

text \<open>
  Each handler is the function that the callback passes to the state setter, applied to the
  collection \<^verbatim>\<open>prev\<close>. \<^verbatim>\<open>prev.some\<close> is \<^const>\<open>list_ex\<close>, the spread with one more
  element is \<^verbatim>\<open>prev @ [new]\<close>.

  The PA shift list (pa-shifts.tsx; the per-user-channel copy has the same callback). The
  guards \<^verbatim>\<open>!payload.new.id\<close> and \<^verbatim>\<open>!payload.old.id\<close> return before any update.
\<close>

fun PAShifts_onPayload :: "Shift payload \<Rightarrow> Shift list \<Rightarrow> Shift list" where
  "PAShifts_onPayload (INSERT new) prev =
     (if shift_id new = [] then prev
      else if list_ex (\<lambda>s. shift_id s = shift_id new) prev
      then map (\<lambda>shift. if shift_id shift = shift_id new then new else shift) prev
      else prev @ [new])"
| "PAShifts_onPayload (UPDATE new old) prev =
     (if shift_id new = [] then prev
      else if \<not> list_ex (\<lambda>shift. shift_id shift = shift_id new) prev
      then prev @ [new]
      else map (\<lambda>shift. if shift_id shift = shift_id new then new else shift) prev)"
| "PAShifts_onPayload (DELETE old) prev =
     (case old_id old of
        None \<Rightarrow> prev
      | Some i \<Rightarrow> if i = [] then prev else filter (\<lambda>shift. shift_id shift \<noteq> i) prev)"

text \<open>The PC grid, shifts (availability-grid, in logout-button.tsx).\<close>

fun AvailabilityGrid_onShifts :: "Shift payload \<Rightarrow> Shift list \<Rightarrow> Shift list" where
  "AvailabilityGrid_onShifts (INSERT new) prev =
     (if list_ex (\<lambda>s. shift_id s = shift_id new) prev
      then map (\<lambda>shift. if shift_id shift = shift_id new then new else shift) prev
      else prev @ [new])"
| "AvailabilityGrid_onShifts (UPDATE new old) prev =
     map (\<lambda>shift. if shift_id shift = shift_id new then new else shift) prev"
| "AvailabilityGrid_onShifts (DELETE old) prev =
     filter (\<lambda>shift. Some (shift_id shift) \<noteq> old_id old) prev"

text \<open>The daily overview, shifts (daily-overview-client.tsx).\<close>

fun DailyOverview_onShifts :: "Shift payload \<Rightarrow> Shift list \<Rightarrow> Shift list" where
  "DailyOverview_onShifts (INSERT new) prev =
     (if list_ex (\<lambda>s. shift_id s = shift_id new) prev
      then map (\<lambda>shift. if shift_id shift = shift_id new then new else shift) prev
      else prev @ [new])"
| "DailyOverview_onShifts (UPDATE new old) prev =
     map (\<lambda>shift. if shift_id shift = shift_id new then new else shift) prev"
| "DailyOverview_onShifts (DELETE old) prev =
     filter (\<lambda>shift. Some (shift_id shift) \<noteq> old_id old) prev"

text \<open>The PC grid, availability.\<close>

fun AvailabilityGrid_onAvailability ::
  "Availability payload \<Rightarrow> Availability list \<Rightarrow> Availability list" where
  "AvailabilityGrid_onAvailability (INSERT new) prev = prev @ [new]"
| "AvailabilityGrid_onAvailability (UPDATE new old) prev =
     map (\<lambda>avail. if avail_id avail = avail_id new then new else avail) prev"
| "AvailabilityGrid_onAvailability (DELETE old) prev =
     filter (\<lambda>avail. Some (avail_id avail) \<noteq> old_id old) prev"

text \<open>
  The PA calendar, availability (pa-calendar.tsx).
  \<^verbatim>\<open>changedDate = payload.new?.date || payload.old?.date\<close>: the new row's date when it is
  a non-empty string, the old row's date otherwise. The callback merges the event when
  \<^verbatim>\<open>changedDate && changedDate >= monthStartDate && changedDate <= monthEndDate\<close>; the
  comparison of two strings is the lexicographic order on \<^typ>\<open>string\<close>. The two bounds are
  parameters: the component computes them as
  \<^verbatim>\<open>new Date(year, month, 1).toISOString().split('T')[0]\<close> and the same for day 0 of the
  next month, the UTC dates of two local midnights, which east of UTC are the days before
  the first and the last day of the month shown.
\<close>

fun changedDate :: "Availability payload \<Rightarrow> string option" where
  "changedDate (INSERT new) = (if avail_date new \<noteq> [] then Some (avail_date new) else None)"
| "changedDate (UPDATE new old) =
     (if avail_date new \<noteq> [] then Some (avail_date new) else old_date old)"
| "changedDate (DELETE old) = old_date old"

fun PACalendar_merge :: "Availability payload \<Rightarrow> Availability list \<Rightarrow> Availability list" where
  "PACalendar_merge (INSERT new) prev = prev @ [new]"
| "PACalendar_merge (UPDATE new old) prev =
     map (\<lambda>avail. if avail_id avail = avail_id new then new else avail) prev"
| "PACalendar_merge (DELETE old) prev =
     filter (\<lambda>avail. Some (avail_id avail) \<noteq> old_id old) prev"

definition inMonthView :: "string \<Rightarrow> string \<Rightarrow> Availability payload \<Rightarrow> bool" where
  "inMonthView monthStartDate monthEndDate p =
     (case changedDate p of
        None \<Rightarrow> False
      | Some d \<Rightarrow> d \<noteq> [] \<and> d \<ge> monthStartDate \<and> d \<le> monthEndDate)"

definition PACalendar_onAvailability ::
  "string \<Rightarrow> string \<Rightarrow> Availability payload \<Rightarrow> Availability list \<Rightarrow> Availability list" where
  "PACalendar_onAvailability monthStartDate monthEndDate p prev =
     (if inMonthView monthStartDate monthEndDate p then PACalendar_merge p prev else prev)"

section \<open>Optimistic mutations of the shift collection\<close>

text \<open>
  A value thrown or returned as an error: an \<^verbatim>\<open>Error\<close> instance with its message, or
  something else. \<^verbatim>\<open>error instanceof Error ? error.message : 'Unknown error'\<close> reads it.
\<close>

datatype js_error = Error string | NonError

fun error_message :: "js_error \<Rightarrow> string" where
  "error_message (Error m) = m"
| "error_message NonError = ''Unknown error''"

datatype toast = toast_success string | toast_error string

text \<open>
  What a mutation leaves behind: the shift collection after its state updates, the toast it
  showed, and the labels it wrote with \<^verbatim>\<open>console.error\<close>. The updates of one mutation run
  in sequence on the collection, with no event of the change feed between them.
\<close>

record op_result =
  shifts_state :: "Shift list"
  toast :: "toast option"
  console_error :: "string list"

record UserDetails =
  email :: string
  name :: string

record SelectedCell =
  paId :: string
  paName :: string
  cell_date :: string
  dateDisplay :: string
  cell_status :: AvailabilityStatus
  cell_shift :: "Shift option"
  paNote :: "string option"

text \<open>
  \<^verbatim>\<open>getAvailabilityStatus\<close> and \<^verbatim>\<open>getShiftForCell\<close> of the PC grid
  (\<^verbatim>\<open>Array.prototype.find\<close> is \<^const>\<open>find\<close>), and the cell that \<^verbatim>\<open>handleCellClick\<close>
  stores as \<^verbatim>\<open>selectedCell\<close> when a cell of the grid is clicked: it holds the shift as
  the collection has it at the click. \<^verbatim>\<open>availRecord?.pa_note || null\<close> is \<^verbatim>\<open>null\<close> for
  an empty note.
\<close>

definition getAvailabilityStatus :: "string \<Rightarrow> string \<Rightarrow> Availability list \<Rightarrow> AvailabilityStatus"
  where
  "getAvailabilityStatus pa date availability =
     map_option status (find (\<lambda>a. user_id a = pa \<and> avail_date a = date) availability)"

definition getShiftForCell :: "string \<Rightarrow> string \<Rightarrow> Shift list \<Rightarrow> Shift option" where
  "getShiftForCell pa date shifts =
     find (\<lambda>shift. assigned_pa_id shift = pa \<and> shift_date shift = date) shifts"

definition handleCellClick ::
  "string \<Rightarrow> string \<Rightarrow> string \<Rightarrow> string \<Rightarrow> Availability list \<Rightarrow> Shift list \<Rightarrow> SelectedCell"
  where
  "handleCellClick pa_id pa_name date display availability shifts =
     \<lparr>paId = pa_id,
      paName = pa_name,
      cell_date = date,
      dateDisplay = display,
      cell_status = getAvailabilityStatus pa_id date availability,
      cell_shift = getShiftForCell pa_id date shifts,
      paNote =
        (case find (\<lambda>a. user_id a = pa_id \<and> avail_date a = date) availability of
           None \<Rightarrow> None
         | Some availRecord \<Rightarrow>
             (case pa_note availRecord of
                None \<Rightarrow> None
              | Some n \<Rightarrow> if n = [] then None else Some n))\<rparr>"

text \<open>
  The notification of \<^verbatim>\<open>createShift\<close>: \<^verbatim>\<open>getUserDetails\<close> returns the details or
  \<^verbatim>\<open>null\<close> (it catches its own errors), then \<^verbatim>\<open>fetch('/api/send-email')\<close> throws, or
  answers with \<^verbatim>\<open>ok\<close>, or answers with an error status, which the code turns into a
  thrown \<^verbatim>\<open>Error\<close>. The result is the exception that leaves the inner \<^verbatim>\<open>try\<close> block,
  if any.
\<close>

datatype fetch_result = fetch_throws js_error | response_ok | response_not_ok "string option"

record assignment_email =
  paDetails :: "UserDetails option"
  fetch_result :: fetch_result

definition createShift_notify :: "assignment_email \<Rightarrow> js_error + unit" where
  "createShift_notify env =
     (case paDetails env of
        None \<Rightarrow> Inr ()
      | Some d \<Rightarrow>
          if email d = [] then Inr ()
          else (case fetch_result env of
                  fetch_throws e \<Rightarrow> Inl e
                | response_ok \<Rightarrow> Inr ()
                | response_not_ok None \<Rightarrow> Inl (Error ''Failed to send email'')
                | response_not_ok (Some m) \<Rightarrow>
                    Inl (Error (if m = [] then ''Failed to send email'' else m))))"

text \<open>
  \<^verbatim>\<open>createShift\<close> of the PC grid. \<^verbatim>\<open>now\<close> is the text of \<^verbatim>\<open>Date.now()\<close>, \<^verbatim>\<open>nowISO\<close>
  that of \<^verbatim>\<open>new Date().toISOString()\<close>; \<^verbatim>\<open>insertResult\<close> is what the insert returns,
  an error or the authoritative row.
\<close>

definition createShift ::
  "string option \<Rightarrow> SelectedCell option \<Rightarrow> string \<Rightarrow> string \<Rightarrow> string \<Rightarrow> string \<Rightarrow>
   js_error + Shift \<Rightarrow> assignment_email \<Rightarrow> Shift list \<Rightarrow> op_result" where
  "createShift currentUserId selectedCell callTime wrapTime now nowISO insertResult env prev =
     (case (currentUserId, selectedCell) of
        (Some uid, Some cell) \<Rightarrow>
          if uid = [] then
            \<lparr>shifts_state = prev,
             toast = Some (toast_error ''Unable to assign shift. Please try again.''),
             console_error = []\<rparr>
          else
            (let formattedCallTime = formatTimeForDB (Some callTime);
                 formattedWrapTime = formatTimeForDB (Some wrapTime);
                 optimisticShift =
                   \<lparr>shift_id = ''temp-'' @ now,
                    shift_date = cell_date cell,
                    assigned_pa_id = paId cell,
                    assigned_by_id = uid,
                    call_time = formattedCallTime,
                    wrap_time = formattedWrapTime,
                    confirmation_status = Pending,
                    shift_created_at = Some nowISO,
                    shift_updated_at = Some nowISO\<rparr>;
                 s1 = prev @ [optimisticShift]
             in case insertResult of
                  Inl error \<Rightarrow>
                    \<lparr>shifts_state = filter (\<lambda>s. shift_id s \<noteq> shift_id optimisticShift) s1,
                     toast = Some (toast_error (''Failed to assign shift: '' @ error_message error)),
                     console_error = [''Error creating shift:'', ''Failed to create shift:'']\<rparr>
                | Inr data \<Rightarrow>
                    \<lparr>shifts_state = filter (\<lambda>s. shift_id s \<noteq> shift_id optimisticShift) s1 @ [data],
                     toast = Some (toast_success ''Shift assigned successfully!''),
                     console_error =
                       (case createShift_notify env of
                          Inl emailError \<Rightarrow> [''Failed to send shift assignment email:'']
                        | Inr u \<Rightarrow> [])\<rparr>)
      | _ \<Rightarrow>
          \<lparr>shifts_state = prev,
           toast = Some (toast_error ''Unable to assign shift. Please try again.''),
           console_error = []\<rparr>)"

text \<open>
  The notification of \<^verbatim>\<open>confirmShift\<close> and \<^verbatim>\<open>declineShift\<close>: sent when the updated row
  names who assigned it and both users' details were found;
  \<^verbatim>\<open>sendShiftConfirmationEmail\<close> returns or throws.
\<close>

datatype send_result = send_returns | send_throws js_error

record confirmation_email =
  pa_details :: "UserDetails option"
  pc_details :: "UserDetails option"
  send_result :: send_result

definition confirmation_notify :: "confirmation_email \<Rightarrow> Shift option \<Rightarrow> js_error + unit" where
  "confirmation_notify env data =
     (case data of
        None \<Rightarrow> Inr ()
      | Some row \<Rightarrow>
          if assigned_by_id row = [] then Inr ()
          else (case (pc_details env, pa_details env) of
                  (Some pc, Some pa) \<Rightarrow>
                    if email pc \<noteq> [] \<and> name pa \<noteq> []
                    then (case send_result env of
                            send_returns \<Rightarrow> Inr ()
                          | send_throws e \<Rightarrow> Inl e)
                    else Inr ()
                | _ \<Rightarrow> Inr ()))"

text \<open>
  \<^verbatim>\<open>confirmShift\<close> of the PA shift list. \<^verbatim>\<open>previousShift\<close> is read from the collection
  by the updater that applies the optimistic change; \<^verbatim>\<open>updateResult\<close> is what the update
  returns.
\<close>

definition confirmShift ::
  "string \<Rightarrow> js_error + Shift option \<Rightarrow> confirmation_email \<Rightarrow> Shift list \<Rightarrow> op_result" where
  "confirmShift shiftId updateResult env prev =
     (let previousShift = find (\<lambda>s. shift_id s = shiftId) prev;
          s1 = map (\<lambda>shift. if shift_id shift = shiftId
                             then shift\<lparr>confirmation_status := Confirmed\<rparr> else shift) prev
      in case updateResult of
           Inl error \<Rightarrow>
             \<lparr>shifts_state =
                (case previousShift of
                   Some p \<Rightarrow> map (\<lambda>shift. if shift_id shift = shiftId then p else shift) s1
                 | None \<Rightarrow> s1),
              toast = Some (toast_error (''Failed to confirm shift: '' @ error_message error)),
              console_error = [''PA: Error confirming shift:'', ''PA: Failed to confirm shift:'']\<rparr>
         | Inr data \<Rightarrow>
             \<lparr>shifts_state = s1,
              toast = Some (toast_success ''Shift confirmed!''),
              console_error =
                (case confirmation_notify env data of
                   Inl emailError \<Rightarrow> [''Failed to send shift confirmation email:'']
                 | Inr u \<Rightarrow> [])\<rparr>)"

text \<open>\<^verbatim>\<open>declineShift\<close>: the same after the user has answered the confirmation dialog.\<close>

definition declineShift ::
  "string \<Rightarrow> bool \<Rightarrow> js_error + Shift option \<Rightarrow> confirmation_email \<Rightarrow> Shift list \<Rightarrow> op_result"
  where
  "declineShift shiftId userConfirms updateResult env prev =
     (if \<not> userConfirms then \<lparr>shifts_state = prev, toast = None, console_error = []\<rparr>
      else
        (let previousShift = find (\<lambda>s. shift_id s = shiftId) prev;
             s1 = map (\<lambda>shift. if shift_id shift = shiftId
                                then shift\<lparr>confirmation_status := Declined\<rparr> else shift) prev
         in case updateResult of
              Inl error \<Rightarrow>
                \<lparr>shifts_state =
                   (case previousShift of
                      Some p \<Rightarrow> map (\<lambda>shift. if shift_id shift = shiftId then p else shift) s1
                    | None \<Rightarrow> s1),
                 toast = Some (toast_error (''Failed to decline shift: '' @ error_message error)),
                 console_error = [''PA: Error declining shift:'', ''PA: Failed to decline shift:'']\<rparr>
            | Inr data \<Rightarrow>
                \<lparr>shifts_state = s1,
                 toast = Some (toast_success ''Shift declined.''),
                 console_error =
                   (case confirmation_notify env data of
                      Inl emailError \<Rightarrow> [''Failed to send shift decline email:'']
                    | Inr u \<Rightarrow> [])\<rparr>))"

text \<open>
  \<^verbatim>\<open>deleteShift\<close> of the PC grid. The shift comes from the selected cell;
  \<^verbatim>\<open>deleteError\<close> is the error of the delete request, if any. The rollback appends the
  shift again.
\<close>

definition deleteShift ::
  "SelectedCell option \<Rightarrow> bool \<Rightarrow> js_error option \<Rightarrow> Shift list \<Rightarrow> op_result" where
  "deleteShift selectedCell userConfirms deleteError prev =
     (case (case selectedCell of None \<Rightarrow> None | Some cell \<Rightarrow> cell_shift cell) of
        None \<Rightarrow>
          \<lparr>shifts_state = prev,
           toast = Some (toast_error ''No shift selected to remove.''),
           console_error = []\<rparr>
      | Some shiftToDelete \<Rightarrow>
          if \<not> userConfirms then \<lparr>shifts_state = prev, toast = None, console_error = []\<rparr>
          else
            (let s1 = filter (\<lambda>shift. shift_id shift \<noteq> shift_id shiftToDelete) prev
             in case deleteError of
                  Some error \<Rightarrow>
                    \<lparr>shifts_state = s1 @ [shiftToDelete],
                     toast = Some (toast_error (''Failed to remove assignment: '' @ error_message error)),
                     console_error = []\<rparr>
                | None \<Rightarrow>
                    \<lparr>shifts_state = s1,
                     toast = Some (toast_success ''Assignment removed successfully!''),
                     console_error = []\<rparr>))"

section \<open>The PA shift list's order\<close>

text \<open>A date written \<^verbatim>\<open>YYYY-MM-DD\<close>: ten characters, digits with a hyphen at 4 and at 7.\<close>

definition isISODate :: "string \<Rightarrow> bool" where
  "isISODate s =
     (length s = 10 \<and> isDigit (s ! 0) \<and> isDigit (s ! 1) \<and> isDigit (s ! 2) \<and> isDigit (s ! 3) \<and>
      s ! 4 = CHR ''-'' \<and> isDigit (s ! 5) \<and> isDigit (s ! 6) \<and> s ! 7 = CHR ''-'' \<and>
      isDigit (s ! 8) \<and> isDigit (s ! 9))"

text \<open>
  \<^verbatim>\<open>a.localeCompare(b)\<close> compares by the collation of the host's locale, which is not
  code of the repository: the parameter \<^verbatim>\<open>collate\<close> stands for it. On two dates written
  \<^verbatim>\<open>YYYY-MM-DD\<close> the result is known, since they have their hyphens at the same places
  and a collation orders the digits as numbers: it is the order of the strings. On other
  strings the result is whatever the collation says (it puts \<^verbatim>\<open>a\<close> before \<^verbatim>\<open>B\<close>, the
  order of the strings does not).
\<close>

definition localeCompare :: "(string \<Rightarrow> string \<Rightarrow> int) \<Rightarrow> string \<Rightarrow> string \<Rightarrow> int" where
  "localeCompare collate a b =
     (if isISODate a \<and> isISODate b
      then (if a < b then - 1 else if a = b then 0 else 1)
      else collate a b)"

text \<open>The comparison function passed to \<^verbatim>\<open>sort\<close>.\<close>

definition compareShifts :: "(string \<Rightarrow> string \<Rightarrow> int) \<Rightarrow> Shift \<Rightarrow> Shift \<Rightarrow> int" where
  "compareShifts collate a b =
     (if confirmation_status a = Pending \<and> confirmation_status b \<noteq> Pending then - 1
      else if confirmation_status a \<noteq> Pending \<and> confirmation_status b = Pending then 1
      else localeCompare collate (shift_date a) (shift_date b))"

text \<open>
  \<^verbatim>\<open>Array.prototype.sort\<close> with a comparison function is a stable sort: an element goes
  before the first one it does not compare greater than, and elements that compare equal
  keep their order. Insertion from the right computes that.
\<close>

fun insert_js :: "('a \<Rightarrow> 'a \<Rightarrow> int) \<Rightarrow> 'a \<Rightarrow> 'a list \<Rightarrow> 'a list" where
  "insert_js cmp x [] = [x]"
| "insert_js cmp x (y # ys) = (if cmp x y \<le> 0 then x # y # ys else y # insert_js cmp x ys)"

definition sort_js :: "('a \<Rightarrow> 'a \<Rightarrow> int) \<Rightarrow> 'a list \<Rightarrow> 'a list" where
  "sort_js cmp xs = foldr (insert_js cmp) xs []"

definition sortedShifts :: "(string \<Rightarrow> string \<Rightarrow> int) \<Rightarrow> Shift list \<Rightarrow> Shift list" where
  "sortedShifts collate shifts = sort_js (compareShifts collate) shifts"

section \<open>Example rows\<close>

text \<open>The rows of the scenarios: PA \<^verbatim>\<open>p1\<close>, 10 March 2025, call 08:00, wrap 18:00.\<close>

definition example_shift :: Shift where
  "example_shift =
     \<lparr>shift_id = ''s1'', shift_date = ''2025-03-10'', assigned_pa_id = ''p1'',
      assigned_by_id = ''c1'', call_time = Some ''08:00:00'', wrap_time = Some ''18:00:00'',
      confirmation_status = Pending, shift_created_at = None, shift_updated_at = None\<rparr>"

definition example_availability :: Availability where
  "example_availability =
     \<lparr>avail_id = ''a1'', user_id = ''p1'', avail_date = ''2025-03-10'', status = Preferred,
      pa_note = None, avail_created_at = None, avail_updated_at = None\<rparr>"

definition example_old_row :: old_row where
  "example_old_row = \<lparr>old_id = Some ''a1'', old_date = None\<rparr>"

definition example_cell :: SelectedCell where
  "example_cell =
     \<lparr>paId = ''p1'', paName = ''Pat'', cell_date = ''2025-03-10'', dateDisplay = ''Mon 3/10'',
      cell_status = Some Preferred, cell_shift = Some example_shift, paNote = None\<rparr>"

section \<open>Properties of the status model\<close>

text \<open>
  C5. \<^verbatim>\<open>cycleStatus\<close> is defined on each of the four availability states (unset is
  \<^verbatim>\<open>null\<close>), follows the ring unset, unavailable, available, preferred, unset, and four
  applications return to the starting state.
\<close>

theorem cycleStatus_four_cycle:
  "cycleStatus None = Some Unavailable \<and>
   cycleStatus (Some Unavailable) = Some Available \<and>
   cycleStatus (Some Available) = Some Preferred \<and>
   cycleStatus (Some Preferred) = None \<and>
   cycleStatus (cycleStatus (cycleStatus (cycleStatus s))) = s"
proof -
  have ring: "cycleStatus None = Some Unavailable"
    "cycleStatus (Some Unavailable) = Some Available"
    "cycleStatus (Some Available) = Some Preferred"
    "cycleStatus (Some Preferred) = None"
    by (simp_all add: cycleStatus_def)
  have "cycleStatus (cycleStatus (cycleStatus (cycleStatus s))) = s"
  proof (cases s)
    case None
    then show ?thesis by (simp add: ring)
  next
    case (Some a)
    then show ?thesis by (cases a) (simp_all add: ring)
  qed
  with ring show ?thesis by simp
qed

text \<open>
  C6. A cell with an assigned shift is labelled "Assigned" whatever its availability status
  is, \<^verbatim>\<open>null\<close> included; for the status "unavailable" the label is "Assigned" and not
  "Unavailable".
\<close>

theorem getStatusLabel_assigned:
  "getStatusLabel s True = ''Assigned'' \<and>
   getStatusLabel (Some Unavailable) True \<noteq> ''Unavailable''"
  by (simp add: getStatusLabel_def)

section \<open>Properties of the time-of-day strings\<close>

lemma split_js_no_sep: "sep \<notin> set s \<Longrightarrow> split_js sep s = [s]"
  by (induction s) auto

lemma split_js_append: "sep \<notin> set h \<Longrightarrow> split_js sep (h @ sep # r) = h # split_js sep r"
  by (induction h) auto

lemma isHHMM_decomp:
  assumes "isHHMM t"
  obtains a b c d where "t = [a, b, CHR '':'', c, d]" "a \<noteq> CHR '':''" "b \<noteq> CHR '':''" "c \<noteq> CHR '':''" "d \<noteq> CHR '':''"
proof -
  from assms have len: "length t = 5" by (simp add: isHHMM_def)
  then obtain a b x c d where t: "t = [a, b, x, c, d]"
    by (auto simp: length_Suc_conv eval_nat_numeral)
  from assms t have "x = CHR '':''" "isDigit a" "isDigit b" "isDigit c" "isDigit d"
    by (simp_all add: isHHMM_def)
  then have "t = [a, b, CHR '':'', c, d]" "a \<noteq> CHR '':''" "b \<noteq> CHR '':''" "c \<noteq> CHR '':''" "d \<noteq> CHR '':''"
    using t by (auto simp: isDigit_def)
  then show thesis by (rule that)
qed

text \<open>
  C8. A time of day \<^verbatim>\<open>HH:MM\<close> is persisted with \<^verbatim>\<open>:00\<close> appended, and displaying the
  persisted value gives the input back; \<^verbatim>\<open>null\<close> is persisted as \<^verbatim>\<open>null\<close>.
\<close>

theorem time_round_trip:
  assumes "isHHMM t"
  shows "formatTimeForDB (Some t) = Some (t @ '':00'') \<and>
         formatTime (formatTimeForDB (Some t)) = t \<and>
         formatTimeForDB None = None"
proof -
  from assms obtain a b c d where t: "t = [a, b, CHR '':'', c, d]"
    and ne: "a \<noteq> CHR '':''" "b \<noteq> CHR '':''" "c \<noteq> CHR '':''" "d \<noteq> CHR '':''"
    by (rule isHHMM_decomp)
  have s2: "split_js (CHR '':'') t = [[a, b], [c, d]]"
    using ne by (simp add: t)
  have s3: "split_js (CHR '':'') (t @ '':00'') = [[a, b], [c, d], ''00'']"
    using ne by (simp add: t)
  have db: "formatTimeForDB (Some t) = Some (t @ '':00'')"
    by (simp add: formatTimeForDB_def s2) (simp add: t)
  have "formatTime (Some (t @ '':00'')) = t"
    by (simp add: formatTime_def s3) (simp add: t)
  with db show ?thesis by (simp add: formatTimeForDB_def)
qed

theorem time_round_trip_witness:
  "isHHMM ''08:00'' \<and> formatTimeForDB (Some ''08:00'') = Some ''08:00:00'' \<and>
   formatTime (formatTimeForDB (Some ''08:00'')) = ''08:00''"
proof -
  have h: "isHHMM ''08:00''" by (simp add: isHHMM_def isDigit_def)
  from time_round_trip [OF h] h show ?thesis by auto
qed

section \<open>Properties of the invite code\<close>

lemma generateInviteCode_closed:
  "generateInviteCode rnd =
     charAt chars \<lfloor>rnd 0 * 32\<rfloor> @ charAt chars \<lfloor>rnd 1 * 32\<rfloor> @ charAt chars \<lfloor>rnd 2 * 32\<rfloor> @ ''-'' @
     charAt chars \<lfloor>rnd 3 * 32\<rfloor> @ charAt chars \<lfloor>rnd 4 * 32\<rfloor> @ charAt chars \<lfloor>rnd 5 * 32\<rfloor>"
proof -
  have len: "real (length chars) = 32" by (simp add: chars_def)
  have l6: "\<And>c. generateInviteCode_loop rnd 6 c = c"
    by (subst generateInviteCode_loop.simps) simp
  have l5: "\<And>c. generateInviteCode_loop rnd 5 c = c @ charAt chars \<lfloor>rnd 5 * 32\<rfloor>"
    by (subst generateInviteCode_loop.simps) (simp add: len l6)
  have l4: "\<And>c. generateInviteCode_loop rnd 4 c = c @ charAt chars \<lfloor>rnd 4 * 32\<rfloor> @ charAt chars \<lfloor>rnd 5 * 32\<rfloor>"
    by (subst generateInviteCode_loop.simps) (simp add: len l5)
  have l3: "\<And>c. generateInviteCode_loop rnd 3 c = c @ charAt chars \<lfloor>rnd 3 * 32\<rfloor> @ charAt chars \<lfloor>rnd 4 * 32\<rfloor> @ charAt chars \<lfloor>rnd 5 * 32\<rfloor>"
    by (subst generateInviteCode_loop.simps) (simp add: len l4)
  have l2: "\<And>c. generateInviteCode_loop rnd 2 c = c @ charAt chars \<lfloor>rnd 2 * 32\<rfloor> @ ''-'' @ charAt chars \<lfloor>rnd 3 * 32\<rfloor> @ charAt chars \<lfloor>rnd 4 * 32\<rfloor> @ charAt chars \<lfloor>rnd 5 * 32\<rfloor>"
    by (subst generateInviteCode_loop.simps) (simp add: len l3)
  have l2': "\<And>c. generateInviteCode_loop rnd (Suc (Suc 0)) c = generateInviteCode_loop rnd 2 c"
    by (simp add: numeral_2_eq_2)
  have l1: "\<And>c. generateInviteCode_loop rnd (Suc 0) c = c @ charAt chars \<lfloor>rnd 1 * 32\<rfloor> @ charAt chars \<lfloor>rnd 2 * 32\<rfloor> @ ''-'' @ charAt chars \<lfloor>rnd 3 * 32\<rfloor> @ charAt chars \<lfloor>rnd 4 * 32\<rfloor> @ charAt chars \<lfloor>rnd 5 * 32\<rfloor>"
    by (subst generateInviteCode_loop.simps) (simp add: len l2' l2)
  show ?thesis
    unfolding generateInviteCode_def
    by (subst generateInviteCode_loop.simps) (simp add: len l1)
qed

lemma charAt_random:
  fixes r :: real
  assumes "0 \<le> r" "r < 1"
  shows "\<exists>c. charAt chars \<lfloor>r * 32\<rfloor> = [c] \<and> c \<in> set chars"
proof -
  have lo: "0 \<le> \<lfloor>r * 32\<rfloor>" using assms by simp
  have hi: "\<lfloor>r * 32\<rfloor> < 32" using assms by (simp add: floor_less_iff)
  have len: "length chars = 32" by (simp add: chars_def)
  from lo hi have "nat \<lfloor>r * 32\<rfloor> < length chars" unfolding len by linarith
  then have "chars ! nat \<lfloor>r * 32\<rfloor> \<in> set chars" by (rule nth_mem)
  moreover have "charAt chars \<lfloor>r * 32\<rfloor> = [chars ! nat \<lfloor>r * 32\<rfloor>]"
    unfolding charAt_def len using lo hi by simp
  ultimately show ?thesis by blast
qed

text \<open>
  C9. Whatever \<^verbatim>\<open>Math.random\<close> returns within its range, the invite code has seven
  characters, a hyphen at index 3, and at the six other places a character of the alphabet,
  which has 32 distinct symbols and none of I, O, 0, 1.
\<close>

theorem generateInviteCode_format:
  assumes rnd: "\<forall>i<6. 0 \<le> rnd i \<and> rnd i < 1"
  shows "length (generateInviteCode rnd) = 7 \<and>
         generateInviteCode rnd ! 3 = CHR ''-'' \<and>
         (\<forall>j\<in>{0, 1, 2, 4, 5, 6}. generateInviteCode rnd ! j \<in> set chars) \<and>
         length chars = 32 \<and> distinct chars \<and>
         set chars \<inter> {CHR ''I'', CHR ''O'', CHR ''0'', CHR ''1''} = {}"
proof -
  from rnd have r: "0 \<le> rnd 0 \<and> rnd 0 < 1" "0 \<le> rnd 1 \<and> rnd 1 < 1" "0 \<le> rnd 2 \<and> rnd 2 < 1"
    "0 \<le> rnd 3 \<and> rnd 3 < 1" "0 \<le> rnd 4 \<and> rnd 4 < 1" "0 \<le> rnd 5 \<and> rnd 5 < 1"
    by simp_all
  obtain c0 where c0: "charAt chars \<lfloor>rnd 0 * 32\<rfloor> = [c0]" "c0 \<in> set chars"
    using charAt_random [of "rnd 0"] r(1) by blast
  obtain c1 where c1: "charAt chars \<lfloor>rnd 1 * 32\<rfloor> = [c1]" "c1 \<in> set chars"
    using charAt_random [of "rnd 1"] r(2) by blast
  obtain c2 where c2: "charAt chars \<lfloor>rnd 2 * 32\<rfloor> = [c2]" "c2 \<in> set chars"
    using charAt_random [of "rnd 2"] r(3) by blast
  obtain c3 where c3: "charAt chars \<lfloor>rnd 3 * 32\<rfloor> = [c3]" "c3 \<in> set chars"
    using charAt_random [of "rnd 3"] r(4) by blast
  obtain c4 where c4: "charAt chars \<lfloor>rnd 4 * 32\<rfloor> = [c4]" "c4 \<in> set chars"
    using charAt_random [of "rnd 4"] r(5) by blast
  obtain c5 where c5: "charAt chars \<lfloor>rnd 5 * 32\<rfloor> = [c5]" "c5 \<in> set chars"
    using charAt_random [of "rnd 5"] r(6) by blast
  have code: "generateInviteCode rnd = [c0, c1, c2, CHR ''-'', c3, c4, c5]"
    unfolding generateInviteCode_closed c0(1) c1(1) c2(1) c3(1) c4(1) c5(1) by simp
  have a: "length (generateInviteCode rnd) = 7" by (simp add: code)
  have b: "generateInviteCode rnd ! 3 = CHR ''-''" by (simp add: code)
  have c: "\<forall>j\<in>{0, 1, 2, 4, 5, 6}. generateInviteCode rnd ! j \<in> set chars"
    using c0(2) c1(2) c2(2) c3(2) c4(2) c5(2) by (simp add: code)
  have d: "length chars = 32" by (simp add: chars_def)
  have e: "distinct chars" by (simp add: chars_def)
  have f: "set chars \<inter> {CHR ''I'', CHR ''O'', CHR ''0'', CHR ''1''} = {}" by (simp add: chars_def)
  from a b c d e f show ?thesis by blast
qed

theorem generateInviteCode_format_witness:
  "generateInviteCode (\<lambda>i. real i / 8) = ''AEJ-NSW'' \<and>
   length (generateInviteCode (\<lambda>i. real i / 8)) = 7 \<and>
   generateInviteCode (\<lambda>i. real i / 8) ! 3 = CHR ''-'' \<and>
   generateInviteCode (\<lambda>i. real i / 8) ! 6 \<in> set chars"
proof -
  have h: "\<forall>i<6. 0 \<le> (\<lambda>i. real i / 8) i \<and> (\<lambda>i. real i / 8) i < 1" by simp
  have "generateInviteCode (\<lambda>i. real i / 8) = ''AEJ-NSW''"
    by (simp add: generateInviteCode_closed charAt_def chars_def)
  with generateInviteCode_format [OF h] show ?thesis by blast
qed

section \<open>Rollback of a failed mutation\<close>

lemma find_id_unique:
  assumes "distinct (map f xs)" "find (\<lambda>s. f s = k) xs = Some p" "x \<in> set xs" "f x = k"
  shows "x = p"
proof -
  from assms(2) have "p \<in> set xs" "f p = k"
    by (auto simp: find_Some_iff)
  moreover from assms(1) have "inj_on f (set xs)" by (simp add: distinct_map)
  ultimately show ?thesis using assms(3,4) by (auto dest: inj_onD)
qed

lemma map_restore_id:
  assumes "distinct (map f xs)" "find (\<lambda>s. f s = k) xs = Some p"
  shows "map (\<lambda>s. if f s = k then p else s) xs = xs"
proof -
  have "\<And>x. x \<in> set xs \<Longrightarrow> (if f x = k then p else x) = x"
    using find_id_unique [OF assms] by auto
  then show ?thesis by (simp add: map_idI)
qed

lemma map_no_match_id:
  assumes "find (\<lambda>s. f s = k) xs = None"
  shows "map (\<lambda>s. if f s = k then g s else s) xs = xs"
proof -
  from assms have "\<And>x. x \<in> set xs \<Longrightarrow> f x \<noteq> k" by (auto simp: find_None_iff)
  then show ?thesis by (simp add: map_idI)
qed

lemma filter_id_single:
  "distinct (map f xs) \<Longrightarrow> s \<in> set xs \<Longrightarrow> filter (\<lambda>x. f x = f s) xs = [s]"
proof (induction xs)
  case Nil
  then show ?case by simp
next
  case (Cons x xs)
  show ?case
  proof (cases "x = s")
    case True
    with Cons.prems have "\<forall>y\<in>set xs. f y \<noteq> f s" by (auto simp: image_iff)
    then have "filter (\<lambda>x. f x = f s) xs = []" by (simp add: filter_empty_conv)
    with True show ?thesis by simp
  next
    case False
    with Cons.prems have "s \<in> set xs" "f x \<noteq> f s" by (auto simp: image_iff)
    with Cons show ?thesis by simp
  qed
qed

lemma confirm_rollback:
  assumes "distinct (map shift_id prev)"
  shows "shifts_state (confirmShift shiftId (Inl e) env prev) = prev"
proof (cases "find (\<lambda>s. shift_id s = shiftId) prev")
  case None
  then show ?thesis
    by (simp add: confirmShift_def Let_def map_no_match_id)
next
  case (Some p)
  have "map (\<lambda>shift. if shift_id shift = shiftId then p else shift)
          (map (\<lambda>shift. if shift_id shift = shiftId
                          then shift\<lparr>confirmation_status := Confirmed\<rparr> else shift) prev)
        = map (\<lambda>shift. if shift_id shift = shiftId then p else shift) prev"
    by (simp add: comp_def cong: if_cong)
  also have "\<dots> = prev" using assms Some by (rule map_restore_id)
  finally show ?thesis using Some by (simp add: confirmShift_def Let_def)
qed

lemma decline_rollback:
  assumes "distinct (map shift_id prev)"
  shows "shifts_state (declineShift shiftId True (Inl e) env prev) = prev"
proof (cases "find (\<lambda>s. shift_id s = shiftId) prev")
  case None
  then show ?thesis
    by (simp add: declineShift_def Let_def map_no_match_id)
next
  case (Some p)
  have "map (\<lambda>shift. if shift_id shift = shiftId then p else shift)
          (map (\<lambda>shift. if shift_id shift = shiftId
                          then shift\<lparr>confirmation_status := Declined\<rparr> else shift) prev)
        = map (\<lambda>shift. if shift_id shift = shiftId then p else shift) prev"
    by (simp add: comp_def cong: if_cong)
  also have "\<dots> = prev" using assms Some by (rule map_restore_id)
  finally show ?thesis using Some by (simp add: declineShift_def Let_def)
qed

lemma create_rollback:
  assumes "\<forall>s\<in>set prev. shift_id s \<noteq> ''temp-'' @ now" "uid \<noteq> []"
  shows "shifts_state (createShift (Some uid) (Some cell) callTime wrapTime now nowISO (Inl e) env prev) = prev"
proof -
  from assms(1) have "filter (\<lambda>s. shift_id s \<noteq> ''temp-'' @ now) prev = prev"
    by (simp add: filter_id_conv)
  with assms(2) show ?thesis by (simp add: createShift_def Let_def)
qed

lemma delete_rollback:
  assumes "distinct (map shift_id prev)" "cell_shift cell = Some s" "s \<in> set prev"
  shows "mset (shifts_state (deleteShift (Some cell) True (Some e) prev)) = mset prev"
proof -
  have "mset prev = mset (filter (\<lambda>x. shift_id x = shift_id s) prev) +
                    mset (filter (\<lambda>x. shift_id x \<noteq> shift_id s) prev)"
    by simp
  also have "filter (\<lambda>x. shift_id x = shift_id s) prev = [s]"
    using assms(1,3) by (rule filter_id_single)
  finally show ?thesis using assms(2) by (simp add: deleteShift_def Let_def)
qed


text \<open>
  C2. After a failed persistence call the collection should hold the records it held before
  the optimistic change. The rollbacks of create, confirm and decline give the list back
  (lemmas above, for a collection with one record for each identifier and a temporary
  identifier not in use). \<^verbatim>\<open>deleteShift\<close> appends the shift of the selected cell, the
  copy taken when the cell was clicked: the cell is clicked while the shift is pending, the
  change feed delivers the shift's confirmation, the delete fails, and the collection that
  held the confirmed shift holds the pending copy.
\<close>

theorem deleteShift_rollback_restores_stale_shift:
  "cell_shift (handleCellClick ''p1'' ''Pat'' ''2025-03-10'' ''Mon 3/10'' [] [example_shift])
     = Some example_shift \<and>
   AvailabilityGrid_onShifts
     (UPDATE (example_shift\<lparr>confirmation_status := Confirmed\<rparr>)
        \<lparr>old_id = Some ''s1'', old_date = None\<rparr>) [example_shift]
     = [example_shift\<lparr>confirmation_status := Confirmed\<rparr>] \<and>
   shifts_state
     (deleteShift
        (Some (handleCellClick ''p1'' ''Pat'' ''2025-03-10'' ''Mon 3/10'' [] [example_shift]))
        True (Some (Error ''failed''))
        [example_shift\<lparr>confirmation_status := Confirmed\<rparr>])
     = [example_shift] \<and>
   [example_shift] \<noteq> [example_shift\<lparr>confirmation_status := Confirmed\<rparr>]"
  by (simp add: handleCellClick_def getShiftForCell_def getAvailabilityStatus_def
      deleteShift_def example_shift_def)

section \<open>Properties of the PA shift list's order\<close>

lemma insert_js_mset: "mset (insert_js cmp x xs) = add_mset x (mset xs)"
  by (induction xs) auto

lemma insert_js_set: "set (insert_js cmp x xs) = insert x (set xs)"
  by (induction xs) auto

lemma sort_js_mset: "mset (sort_js cmp xs) = mset xs"
  by (induction xs) (simp_all add: sort_js_def insert_js_mset)

lemma insert_js_sorted:
  assumes total: "\<And>a b. a \<in> A \<Longrightarrow> b \<in> A \<Longrightarrow> cmp a b \<le> 0 \<or> cmp b a \<le> 0"
    and trans: "\<And>a b c. a \<in> A \<Longrightarrow> b \<in> A \<Longrightarrow> c \<in> A \<Longrightarrow>
                  cmp a b \<le> 0 \<Longrightarrow> cmp b c \<le> 0 \<Longrightarrow> cmp a c \<le> 0"
  shows "x \<in> A \<Longrightarrow> set xs \<subseteq> A \<Longrightarrow> sorted_wrt (\<lambda>a b. cmp a b \<le> 0) xs \<Longrightarrow>
         sorted_wrt (\<lambda>a b. cmp a b \<le> 0) (insert_js cmp x xs)"
proof (induction xs)
  case Nil
  then show ?case by simp
next
  case (Cons y ys)
  show ?case
  proof (cases "cmp x y \<le> 0")
    case True
    have "cmp x z \<le> 0" if "z \<in> set ys" for z
    proof -
      from Cons.prems that have "cmp y z \<le> 0" "z \<in> A" "y \<in> A" by auto
      with True Cons.prems(1) show ?thesis using trans by blast
    qed
    with True Cons.prems show ?thesis by simp
  next
    case False
    with total [of x y] Cons.prems have "cmp y x \<le> 0" by auto
    moreover from Cons have "sorted_wrt (\<lambda>a b. cmp a b \<le> 0) (insert_js cmp x ys)" by simp
    ultimately show ?thesis using False Cons.prems by (auto simp: insert_js_set)
  qed
qed

lemma sort_js_set: "set (sort_js cmp xs) = set xs"
  by (induction xs) (simp_all add: sort_js_def insert_js_set)

lemma sort_js_sorted:
  assumes total: "\<And>a b. a \<in> A \<Longrightarrow> b \<in> A \<Longrightarrow> cmp a b \<le> 0 \<or> cmp b a \<le> 0"
    and trans: "\<And>a b c. a \<in> A \<Longrightarrow> b \<in> A \<Longrightarrow> c \<in> A \<Longrightarrow>
                  cmp a b \<le> 0 \<Longrightarrow> cmp b c \<le> 0 \<Longrightarrow> cmp a c \<le> 0"
  shows "set xs \<subseteq> A \<Longrightarrow> sorted_wrt (\<lambda>a b. cmp a b \<le> 0) (sort_js cmp xs)"
proof (induction xs)
  case Nil
  then show ?case by (simp add: sort_js_def)
next
  case (Cons x xs)
  have "sorted_wrt (\<lambda>a b. cmp a b \<le> 0) (insert_js cmp x (sort_js cmp xs))"
  proof (rule insert_js_sorted [where A = A])
    show "\<And>a b. a \<in> A \<Longrightarrow> b \<in> A \<Longrightarrow> cmp a b \<le> 0 \<or> cmp b a \<le> 0" by (rule total)
    show "\<And>a b c. a \<in> A \<Longrightarrow> b \<in> A \<Longrightarrow> c \<in> A \<Longrightarrow>
                  cmp a b \<le> 0 \<Longrightarrow> cmp b c \<le> 0 \<Longrightarrow> cmp a c \<le> 0" by (rule trans)
    show "x \<in> A" using Cons.prems by simp
    show "set (sort_js cmp xs) \<subseteq> A" using Cons.prems by (simp add: sort_js_set)
    show "sorted_wrt (\<lambda>a b. cmp a b \<le> 0) (sort_js cmp xs)" using Cons by simp
  qed
  then show ?case by (simp add: sort_js_def)
qed

lemma compareShifts_le:
  assumes "isISODate (shift_date a)" "isISODate (shift_date b)"
  shows "compareShifts collate a b \<le> 0 \<longleftrightarrow>
     (confirmation_status a = Pending \<and> confirmation_status b \<noteq> Pending) \<or>
     ((confirmation_status a = Pending) = (confirmation_status b = Pending) \<and>
      shift_date a \<le> shift_date b)"
  using assms by (auto simp: compareShifts_def localeCompare_def)

lemma sortedShifts_sorted_wrt:
  assumes "\<forall>s\<in>set xs. isISODate (shift_date s)"
  shows "sorted_wrt (\<lambda>a b. compareShifts collate a b \<le> 0) (sortedShifts collate xs)"
  unfolding sortedShifts_def
proof (rule sort_js_sorted [where A = "{s::Shift. isISODate (shift_date s)}"])
  show "set xs \<subseteq> {s::Shift. isISODate (shift_date s)}" using assms by auto
next
  fix a b :: Shift assume "a \<in> {s::Shift. isISODate (shift_date s)}" "b \<in> {s::Shift. isISODate (shift_date s)}"
  then show "compareShifts collate a b \<le> 0 \<or> compareShifts collate b a \<le> 0"
    by (auto simp: compareShifts_le)
next
  fix a b c :: Shift
  assume "a \<in> {s::Shift. isISODate (shift_date s)}" "b \<in> {s::Shift. isISODate (shift_date s)}"
    "c \<in> {s::Shift. isISODate (shift_date s)}"
    "compareShifts collate a b \<le> 0" "compareShifts collate b c \<le> 0"
  then show "compareShifts collate a c \<le> 0"
    by (auto simp: compareShifts_le)
qed

lemma sorted_wrt_partition:
  assumes "sorted_wrt R xs" "\<And>a b. a \<in> set xs \<Longrightarrow> b \<in> set xs \<Longrightarrow> R a b \<Longrightarrow> P b \<Longrightarrow> P a"
  shows "filter P xs @ filter (\<lambda>x. \<not> P x) xs = xs"
  using assms
proof (induction xs)
  case Nil
  then show ?case by simp
next
  case (Cons x xs)
  from Cons.prems have ih: "filter P xs @ filter (\<lambda>x. \<not> P x) xs = xs"
    by (intro Cons.IH) auto
  show ?case
  proof (cases "P x")
    case True
    with ih show ?thesis by simp
  next
    case False
    have "\<not> P y" if "y \<in> set xs" for y
    proof
      assume "P y"
      moreover from Cons.prems(1) that have "R x y" by simp
      ultimately have "P x" using Cons.prems(2) [of x y] that by simp
      with False show False by simp
    qed
    then have "filter P xs = []" "filter (\<lambda>x. \<not> P x) xs = xs"
      by (simp_all add: filter_empty_conv filter_id_conv)
    with False show ?thesis by simp
  qed
qed

lemma sorted_wrt_filter_dates:
  assumes "sorted_wrt (\<lambda>a b. compareShifts collate a b \<le> 0) xs"
    and "\<forall>s\<in>set xs. isISODate (shift_date s)"
    and "\<And>a b. Q a \<Longrightarrow> Q b \<Longrightarrow> (confirmation_status a = Pending) = (confirmation_status b = Pending)"
  shows "sorted (map shift_date (filter Q xs))"
proof -
  from assms(1) have "sorted_wrt (\<lambda>a b. compareShifts collate a b \<le> 0) (filter Q xs)"
    by (rule sorted_wrt_filter)
  then have "sorted_wrt (\<lambda>a b. shift_date a \<le> shift_date b) (filter Q xs)"
  proof (rule sorted_wrt_mono_rel [rotated])
    fix a b assume "a \<in> set (filter Q xs)" "b \<in> set (filter Q xs)" "compareShifts collate a b \<le> 0"
    then show "shift_date a \<le> shift_date b"
      using assms(2) assms(3) [of a b] by (auto simp: compareShifts_le)
  qed
  then show ?thesis by (simp add: sorted_map)
qed

text \<open>
  C10. For shifts whose dates are written \<^verbatim>\<open>YYYY-MM-DD\<close>, whatever the collation of other
  strings is: in the sorted shift list every pending shift comes before every shift that is
  not pending, the dates of the pending shifts are in nondecreasing order of the strings and
  so are the dates of the others, and the list has the shifts of the input, each as often
  as there.
\<close>

theorem sortedShifts_pending_first_by_date:
  assumes iso: "\<forall>s\<in>set shifts. isISODate (shift_date s)"
  shows "filter (\<lambda>s. confirmation_status s = Pending) (sortedShifts collate shifts) @
     filter (\<lambda>s. confirmation_status s \<noteq> Pending) (sortedShifts collate shifts)
       = sortedShifts collate shifts \<and>
   sorted (map shift_date
     (filter (\<lambda>s. confirmation_status s = Pending) (sortedShifts collate shifts))) \<and>
   sorted (map shift_date
     (filter (\<lambda>s. confirmation_status s \<noteq> Pending) (sortedShifts collate shifts))) \<and>
   mset (sortedShifts collate shifts) = mset shifts"
proof -
  note sw = sortedShifts_sorted_wrt [OF iso, of collate]
  have d: "mset (sortedShifts collate shifts) = mset shifts"
    by (simp add: sortedShifts_def sort_js_mset)
  then have "set (sortedShifts collate shifts) = set shifts" by (rule mset_eq_setD)
  with iso have iso': "\<forall>s\<in>set (sortedShifts collate shifts). isISODate (shift_date s)" by simp
  have a: "filter (\<lambda>s. confirmation_status s = Pending) (sortedShifts collate shifts) @
     filter (\<lambda>s. confirmation_status s \<noteq> Pending) (sortedShifts collate shifts)
       = sortedShifts collate shifts"
    using sw
  proof (rule sorted_wrt_partition)
    fix a b
    assume "a \<in> set (sortedShifts collate shifts)" "b \<in> set (sortedShifts collate shifts)"
      "compareShifts collate a b \<le> 0" "confirmation_status b = Pending"
    with iso' show "confirmation_status a = Pending" by (auto simp: compareShifts_le)
  qed
  have b: "sorted (map shift_date
     (filter (\<lambda>s. confirmation_status s = Pending) (sortedShifts collate shifts)))"
    using sw iso' by (rule sorted_wrt_filter_dates) simp
  have c: "sorted (map shift_date
     (filter (\<lambda>s. confirmation_status s \<noteq> Pending) (sortedShifts collate shifts)))"
    using sw iso' by (rule sorted_wrt_filter_dates) simp
  from a b c d show ?thesis by blast
qed

text \<open>Three shifts: one confirmed on 9 March, two pending on 12 and on 10 March.\<close>

theorem sortedShifts_pending_first_by_date_witness:
  "sortedShifts (\<lambda>a b. 0)
     [example_shift\<lparr>shift_id := ''s3'', shift_date := ''2025-03-09'', confirmation_status := Confirmed\<rparr>,
      example_shift\<lparr>shift_id := ''s2'', shift_date := ''2025-03-12''\<rparr>,
      example_shift]
   = [example_shift,
      example_shift\<lparr>shift_id := ''s2'', shift_date := ''2025-03-12''\<rparr>,
      example_shift\<lparr>shift_id := ''s3'', shift_date := ''2025-03-09'', confirmation_status := Confirmed\<rparr>] \<and>
   sorted (map shift_date (filter (\<lambda>s. confirmation_status s = Pending)
     (sortedShifts (\<lambda>a b. 0)
       [example_shift\<lparr>shift_id := ''s3'', shift_date := ''2025-03-09'', confirmation_status := Confirmed\<rparr>,
        example_shift\<lparr>shift_id := ''s2'', shift_date := ''2025-03-12''\<rparr>,
        example_shift])))"
proof -
  have iso: "\<forall>s\<in>set
     [example_shift\<lparr>shift_id := ''s3'', shift_date := ''2025-03-09'', confirmation_status := Confirmed\<rparr>,
      example_shift\<lparr>shift_id := ''s2'', shift_date := ''2025-03-12''\<rparr>,
      example_shift]. isISODate (shift_date s)"
    by (simp add: example_shift_def isISODate_def isDigit_def)
  have "sortedShifts (\<lambda>a b. 0)
     [example_shift\<lparr>shift_id := ''s3'', shift_date := ''2025-03-09'', confirmation_status := Confirmed\<rparr>,
      example_shift\<lparr>shift_id := ''s2'', shift_date := ''2025-03-12''\<rparr>,
      example_shift]
   = [example_shift,
      example_shift\<lparr>shift_id := ''s2'', shift_date := ''2025-03-12''\<rparr>,
      example_shift\<lparr>shift_id := ''s3'', shift_date := ''2025-03-09'', confirmation_status := Confirmed\<rparr>]"
    by (simp add: sortedShifts_def sort_js_def compareShifts_def localeCompare_def
        example_shift_def isISODate_def isDigit_def)
  with sortedShifts_pending_first_by_date [OF iso, of "\<lambda>a b. 0"] show ?thesis by blast
qed

section \<open>Notification failures\<close>

text \<open>
  C7. When the write of a create, confirm or decline has succeeded, the shift collection
  and the success toast are the same whatever the notification does (sent, skipped, thrown,
  answered with an error): the collection is the committed one, with the authoritative row
  after a create and the new status after a confirm or decline.
\<close>

theorem notification_failure_keeps_commit:
  assumes uid: "uid \<noteq> []"
  shows "shifts_state (createShift (Some uid) (Some cell) callTime wrapTime now nowISO
                         (Inr data) aenv prev)
           = shifts_state (createShift (Some uid) (Some cell) callTime wrapTime now nowISO
                         (Inr data) aenv' prev) \<and>
         data \<in> set (shifts_state (createShift (Some uid) (Some cell) callTime wrapTime now nowISO
                         (Inr data) aenv prev)) \<and>
         toast (createShift (Some uid) (Some cell) callTime wrapTime now nowISO
                         (Inr data) aenv prev) = Some (toast_success ''Shift assigned successfully!'') \<and>
         shifts_state (confirmShift shiftId (Inr row) cenv prev)
           = shifts_state (confirmShift shiftId (Inr row) cenv' prev) \<and>
         shifts_state (confirmShift shiftId (Inr row) cenv prev)
           = map (\<lambda>shift. if shift_id shift = shiftId
                           then shift\<lparr>confirmation_status := Confirmed\<rparr> else shift) prev \<and>
         toast (confirmShift shiftId (Inr row) cenv prev) = Some (toast_success ''Shift confirmed!'') \<and>
         shifts_state (declineShift shiftId True (Inr row) cenv prev)
           = shifts_state (declineShift shiftId True (Inr row) cenv' prev) \<and>
         shifts_state (declineShift shiftId True (Inr row) cenv prev)
           = map (\<lambda>shift. if shift_id shift = shiftId
                           then shift\<lparr>confirmation_status := Declined\<rparr> else shift) prev \<and>
         toast (declineShift shiftId True (Inr row) cenv prev) = Some (toast_success ''Shift declined.'')"
  using uid by (simp add: createShift_def confirmShift_def declineShift_def Let_def)


text \<open>A create and a confirm whose notification throws.\<close>

theorem notification_failure_keeps_commit_witness:
  "createShift_notify
     \<lparr>paDetails = Some \<lparr>email = ''pat@example.com'', name = ''Pat''\<rparr>,
      fetch_result = fetch_throws (Error ''network'')\<rparr> = Inl (Error ''network'') \<and>
   shifts_state (createShift (Some ''c1'') (Some example_cell) ''08:00'' ''18:00''
                   ''1741593600000'' ''2025-03-10T08:00:00.000Z'' (Inr example_shift)
                   \<lparr>paDetails = Some \<lparr>email = ''pat@example.com'', name = ''Pat''\<rparr>,
                    fetch_result = fetch_throws (Error ''network'')\<rparr> [])
     = [example_shift] \<and>
   toast (createShift (Some ''c1'') (Some example_cell) ''08:00'' ''18:00''
            ''1741593600000'' ''2025-03-10T08:00:00.000Z'' (Inr example_shift)
            \<lparr>paDetails = Some \<lparr>email = ''pat@example.com'', name = ''Pat''\<rparr>,
             fetch_result = fetch_throws (Error ''network'')\<rparr> [])
     = Some (toast_success ''Shift assigned successfully!'') \<and>
   confirmation_notify
     \<lparr>pa_details = Some \<lparr>email = ''pat@example.com'', name = ''Pat''\<rparr>,
      pc_details = Some \<lparr>email = ''pc@example.com'', name = ''Chris''\<rparr>,
      send_result = send_throws (Error ''network'')\<rparr> (Some example_shift)
     = Inl (Error ''network'') \<and>
   shifts_state (confirmShift ''s1'' (Inr (Some example_shift))
                   \<lparr>pa_details = Some \<lparr>email = ''pat@example.com'', name = ''Pat''\<rparr>,
                    pc_details = Some \<lparr>email = ''pc@example.com'', name = ''Chris''\<rparr>,
                    send_result = send_throws (Error ''network'')\<rparr> [example_shift])
     = [example_shift\<lparr>confirmation_status := Confirmed\<rparr>]"
proof -
  have uid: "''c1'' \<noteq> []" by simp
  from notification_failure_keeps_commit [where cell = example_cell and callTime = "''08:00''"
      and wrapTime = "''18:00''" and now = "''1741593600000''"
      and nowISO = "''2025-03-10T08:00:00.000Z''" and data = example_shift and prev = "[]"
      and aenv = "\<lparr>paDetails = Some \<lparr>email = ''pat@example.com'', name = ''Pat''\<rparr>,
                    fetch_result = fetch_throws (Error ''network'')\<rparr>"
      and aenv' = "\<lparr>paDetails = None, fetch_result = response_ok\<rparr>",
      OF uid]
  have "shifts_state (createShift (Some ''c1'') (Some example_cell) ''08:00'' ''18:00''
                   ''1741593600000'' ''2025-03-10T08:00:00.000Z'' (Inr example_shift)
                   \<lparr>paDetails = Some \<lparr>email = ''pat@example.com'', name = ''Pat''\<rparr>,
                    fetch_result = fetch_throws (Error ''network'')\<rparr> [])
     = [example_shift]"
    and "toast (createShift (Some ''c1'') (Some example_cell) ''08:00'' ''18:00''
            ''1741593600000'' ''2025-03-10T08:00:00.000Z'' (Inr example_shift)
            \<lparr>paDetails = Some \<lparr>email = ''pat@example.com'', name = ''Pat''\<rparr>,
             fetch_result = fetch_throws (Error ''network'')\<rparr> [])
     = Some (toast_success ''Shift assigned successfully!'')"
    by (simp_all add: createShift_def Let_def)
  moreover have "createShift_notify
     \<lparr>paDetails = Some \<lparr>email = ''pat@example.com'', name = ''Pat''\<rparr>,
      fetch_result = fetch_throws (Error ''network'')\<rparr> = Inl (Error ''network'')"
    by (simp add: createShift_notify_def)
  moreover have "confirmation_notify
     \<lparr>pa_details = Some \<lparr>email = ''pat@example.com'', name = ''Pat''\<rparr>,
      pc_details = Some \<lparr>email = ''pc@example.com'', name = ''Chris''\<rparr>,
      send_result = send_throws (Error ''network'')\<rparr> (Some example_shift)
     = Inl (Error ''network'')"
    by (simp add: confirmation_notify_def example_shift_def)
  moreover have "shifts_state (confirmShift ''s1'' (Inr (Some example_shift))
                   \<lparr>pa_details = Some \<lparr>email = ''pat@example.com'', name = ''Pat''\<rparr>,
                    pc_details = Some \<lparr>email = ''pc@example.com'', name = ''Chris''\<rparr>,
                    send_result = send_throws (Error ''network'')\<rparr> [example_shift])
     = [example_shift\<lparr>confirmation_status := Confirmed\<rparr>]"
    by (simp add: confirmShift_def Let_def example_shift_def)
  ultimately show ?thesis by blast
qed

section \<open>Merging change-feed events\<close>

lemma length_filter_map_replace:
  "f n = k \<Longrightarrow>
   length (filter (\<lambda>r. f r = k) (map (\<lambda>r. if f r = k then n else r) xs)) =
   length (filter (\<lambda>r. f r = k) xs)"
  by (induction xs) auto

lemma length_filter_unique:
  assumes "distinct (map f xs)" "list_ex (\<lambda>r. f r = k) xs"
  shows "length (filter (\<lambda>r. f r = k) xs) = 1"
proof -
  from assms(2) obtain s where s: "s \<in> set xs" "f s = k" by (auto simp: list_ex_iff)
  from assms(1) s(1) have "filter (\<lambda>x. f x = f s) xs = [s]" by (rule filter_id_single)
  with s(2) show ?thesis by simp
qed

lemma insert_merge_twice_count:
  fixes f :: "'r \<Rightarrow> string"
  defines "merge \<equiv> \<lambda>k n xs. if list_ex (\<lambda>r. f r = k) xs
                              then map (\<lambda>r. if f r = k then n else r) xs else xs @ [n]"
  assumes "distinct (map f prev)" "f new = k"
  shows "length (filter (\<lambda>r. f r = k) (merge k new (merge k new prev))) = 1"
proof (cases "list_ex (\<lambda>r. f r = k) prev")
  case True
  let ?m = "map (\<lambda>r. if f r = k then new else r) prev"
  from True have m: "merge k new prev = ?m" by (simp add: merge_def)
  from True assms(3) have "list_ex (\<lambda>r. f r = k) ?m" by (auto simp: list_ex_iff)
  then have "merge k new ?m = map (\<lambda>r. if f r = k then new else r) ?m" by (simp add: merge_def)
  then have "length (filter (\<lambda>r. f r = k) (merge k new ?m)) = length (filter (\<lambda>r. f r = k) prev)"
    using assms(3) by (simp only: length_filter_map_replace)
  with length_filter_unique [OF assms(2) True] m show ?thesis by simp
next
  case False
  then have m: "merge k new prev = prev @ [new]" by (simp add: merge_def)
  from False have none: "filter (\<lambda>r. f r = k) prev = []"
    by (auto simp: list_ex_iff filter_empty_conv)
  have "list_ex (\<lambda>r. f r = k) (prev @ [new])" using assms(3) by (simp add: list_ex_iff)
  then have "merge k new (prev @ [new]) = map (\<lambda>r. if f r = k then new else r) (prev @ [new])"
    by (simp add: merge_def)
  then have "length (filter (\<lambda>r. f r = k) (merge k new (prev @ [new])))
      = length (filter (\<lambda>r. f r = k) (prev @ [new]))"
    using assms(3) by (simp only: length_filter_map_replace)
  with none assms(3) m show ?thesis by simp
qed

text \<open>
  The three shift handlers look for the identifier first: the same insert event merged twice
  leaves one record with that identifier.
\<close>

lemma shift_insert_merge_twice:
  assumes "distinct (map shift_id prev)"
  shows "length (filter (\<lambda>s. shift_id s = shift_id new)
           (AvailabilityGrid_onShifts (INSERT new) (AvailabilityGrid_onShifts (INSERT new) prev))) = 1"
    and "length (filter (\<lambda>s. shift_id s = shift_id new)
           (DailyOverview_onShifts (INSERT new) (DailyOverview_onShifts (INSERT new) prev))) = 1"
    and "shift_id new \<noteq> [] \<Longrightarrow> length (filter (\<lambda>s. shift_id s = shift_id new)
           (PAShifts_onPayload (INSERT new) (PAShifts_onPayload (INSERT new) prev))) = 1"
  using insert_merge_twice_count [of shift_id prev new "shift_id new", OF assms]
  by simp_all

text \<open>
  C1. Merging the same insert event twice should leave one record with the event's
  identifier. The two availability handlers append the row without looking for its
  identifier: from the empty collection, the example row inserted twice is there twice, in
  the PA calendar (the row's date is within the bounds) and in the PC grid.
\<close>

theorem availability_insert_twice_two_records:
  "PACalendar_onAvailability ''2025-03-01'' ''2025-03-31'' (INSERT example_availability)
     (PACalendar_onAvailability ''2025-03-01'' ''2025-03-31'' (INSERT example_availability) [])
     = [example_availability, example_availability] \<and>
   AvailabilityGrid_onAvailability (INSERT example_availability)
     (AvailabilityGrid_onAvailability (INSERT example_availability) [])
     = [example_availability, example_availability] \<and>
   length (filter (\<lambda>a. avail_id a = avail_id example_availability)
     [example_availability, example_availability]) = 2"
  by (simp add: PACalendar_onAvailability_def inMonthView_def example_availability_def)

lemma map_replace_absent:
  "\<not> list_ex (\<lambda>r. f r = k) xs \<Longrightarrow> map (\<lambda>r. if f r = k then n else r) xs = xs"
  by (simp add: list_ex_iff map_idI)

text \<open>
  An update event for an identifier the collection does not hold: four handlers return the
  collection as it is, the PA shift list adds the row.
\<close>

lemma update_absent_unchanged:
  "\<not> list_ex (\<lambda>s. shift_id s = shift_id new) prev \<Longrightarrow>
     AvailabilityGrid_onShifts (UPDATE new old) prev = prev"
  "\<not> list_ex (\<lambda>s. shift_id s = shift_id new) prev \<Longrightarrow>
     DailyOverview_onShifts (UPDATE new old) prev = prev"
  "\<not> list_ex (\<lambda>a. avail_id a = avail_id anew) aprev \<Longrightarrow>
     AvailabilityGrid_onAvailability (UPDATE anew old) aprev = aprev"
  "\<not> list_ex (\<lambda>a. avail_id a = avail_id anew) aprev \<Longrightarrow>
     PACalendar_onAvailability monthStartDate monthEndDate (UPDATE anew old) aprev = aprev"
  by (simp_all add: map_replace_absent PACalendar_onAvailability_def)

lemma PAShifts_update_upserts:
  "shift_id new \<noteq> [] \<Longrightarrow> new \<in> set (PAShifts_onPayload (UPDATE new old) prev)"
  by (auto simp: list_ex_iff)

text \<open>
  C3. After an update event the collection should hold the event's row, added when no
  record had its identifier. From the empty collection the PA shift list adds the row; the
  PA calendar (the event's date is within its bounds), the PC grid, for availability and
  for shifts, and the daily overview leave the collection empty.
\<close>

theorem update_of_absent_record_not_added:
  "inMonthView ''2025-03-01'' ''2025-03-31'' (UPDATE example_availability example_old_row) \<and>
   PACalendar_onAvailability ''2025-03-01'' ''2025-03-31''
     (UPDATE example_availability example_old_row) [] = [] \<and>
   AvailabilityGrid_onAvailability (UPDATE example_availability example_old_row) [] = [] \<and>
   AvailabilityGrid_onShifts
     (UPDATE example_shift \<lparr>old_id = Some ''s1'', old_date = None\<rparr>) [] = [] \<and>
   DailyOverview_onShifts
     (UPDATE example_shift \<lparr>old_id = Some ''s1'', old_date = None\<rparr>) [] = [] \<and>
   PAShifts_onPayload
     (UPDATE example_shift \<lparr>old_id = Some ''s1'', old_date = None\<rparr>) [] = [example_shift]"
  by (simp add: PACalendar_onAvailability_def inMonthView_def example_availability_def
      example_shift_def)

text \<open>
  The PC grid shows the week from 17 to 23 March 2025; an insert event for 10 March is
  merged, for availability and for shifts.
\<close>

theorem grid_merges_outside_week_counterexample:
  "\<not> (''2025-03-17'' \<le> avail_date example_availability \<and>
      avail_date example_availability \<le> ''2025-03-23'') \<and>
   AvailabilityGrid_onAvailability (INSERT example_availability) [] = [example_availability] \<and>
   \<not> (''2025-03-17'' \<le> shift_date example_shift \<and> shift_date example_shift \<le> ''2025-03-23'') \<and>
   AvailabilityGrid_onShifts (INSERT example_shift) [] = [example_shift]"
  by (simp add: example_availability_def example_shift_def)

text \<open>
  C4, amended. The PA calendar leaves its collection unchanged for an event whose date (the
  new row's, or the old row's for a delete) is before \<^verbatim>\<open>monthStartDate\<close> or after
  \<^verbatim>\<open>monthEndDate\<close>, the two bounds its callback compares with. The PC grid's handlers, for
  availability and for shifts, and the daily overview's handler compare no dates: whatever
  the date of the event, after an insert the new row is in the collection, after an update
  every record with the event's identifier is the new row, and after a delete no record
  with the old row's identifier is left.
\<close>

theorem PACalendar_drops_outside_bounds:
  assumes "changedDate p = Some d" "d < monthStartDate \<or> monthEndDate < d"
  shows "PACalendar_onAvailability monthStartDate monthEndDate p prev = prev \<and>
         anew \<in> set (AvailabilityGrid_onAvailability (INSERT anew) aprev) \<and>
         snew \<in> set (AvailabilityGrid_onShifts (INSERT snew) sprev) \<and>
         snew \<in> set (DailyOverview_onShifts (INSERT snew) sprev) \<and>
         (\<forall>a\<in>set (AvailabilityGrid_onAvailability (UPDATE anew old) aprev).
            avail_id a = avail_id anew \<longrightarrow> a = anew) \<and>
         (\<forall>s\<in>set (AvailabilityGrid_onShifts (UPDATE snew old) sprev).
            shift_id s = shift_id snew \<longrightarrow> s = snew) \<and>
         (\<forall>s\<in>set (DailyOverview_onShifts (UPDATE snew old) sprev).
            shift_id s = shift_id snew \<longrightarrow> s = snew) \<and>
         (\<forall>a\<in>set (AvailabilityGrid_onAvailability (DELETE old) aprev).
            Some (avail_id a) \<noteq> old_id old) \<and>
         (\<forall>s\<in>set (AvailabilityGrid_onShifts (DELETE old) sprev).
            Some (shift_id s) \<noteq> old_id old) \<and>
         (\<forall>s\<in>set (DailyOverview_onShifts (DELETE old) sprev).
            Some (shift_id s) \<noteq> old_id old)"
proof -
  from assms have "\<not> inMonthView monthStartDate monthEndDate p"
    by (auto simp: inMonthView_def)
  then have a: "PACalendar_onAvailability monthStartDate monthEndDate p prev = prev"
    by (simp add: PACalendar_onAvailability_def)
  have b: "anew \<in> set (AvailabilityGrid_onAvailability (INSERT anew) aprev)" by simp
  have c: "snew \<in> set (AvailabilityGrid_onShifts (INSERT snew) sprev)"
    by (auto simp: list_ex_iff)
  have d: "snew \<in> set (DailyOverview_onShifts (INSERT snew) sprev)"
    by (auto simp: list_ex_iff)
  have e: "\<forall>a\<in>set (AvailabilityGrid_onAvailability (UPDATE anew old) aprev).
            avail_id a = avail_id anew \<longrightarrow> a = anew" by auto
  have f: "\<forall>s\<in>set (AvailabilityGrid_onShifts (UPDATE snew old) sprev).
            shift_id s = shift_id snew \<longrightarrow> s = snew" by auto
  have g: "\<forall>s\<in>set (DailyOverview_onShifts (UPDATE snew old) sprev).
            shift_id s = shift_id snew \<longrightarrow> s = snew" by auto
  have h: "\<forall>a\<in>set (AvailabilityGrid_onAvailability (DELETE old) aprev).
            Some (avail_id a) \<noteq> old_id old" by simp
  have i: "\<forall>s\<in>set (AvailabilityGrid_onShifts (DELETE old) sprev).
            Some (shift_id s) \<noteq> old_id old" by simp
  have j: "\<forall>s\<in>set (DailyOverview_onShifts (DELETE old) sprev).
            Some (shift_id s) \<noteq> old_id old" by simp
  from a b c d e f g h i j show ?thesis by blast
qed

text \<open>The example rows of 10 March, with the bounds of April for the PA calendar.\<close>

theorem PACalendar_drops_outside_bounds_witness:
  "changedDate (INSERT example_availability) = Some ''2025-03-10'' \<and>
   ''2025-03-10'' < ''2025-04-01'' \<and>
   PACalendar_onAvailability ''2025-04-01'' ''2025-04-30'' (INSERT example_availability) [] = [] \<and>
   example_availability \<in> set (AvailabilityGrid_onAvailability (INSERT example_availability) []) \<and>
   example_shift \<in> set (AvailabilityGrid_onShifts (INSERT example_shift) []) \<and>
   example_shift \<in> set (DailyOverview_onShifts (INSERT example_shift) [])"
proof -
  have h1: "changedDate (INSERT example_availability) = Some ''2025-03-10''"
    by (simp add: example_availability_def)
  have h2: "''2025-03-10'' < ''2025-04-01'' \<or> ''2025-04-30'' < ''2025-03-10''" by simp
  from PACalendar_drops_outside_bounds [OF h1 h2, where prev = "[]"
      and anew = example_availability and aprev = "[]" and snew = example_shift and sprev = "[]"]
    h1
  show ?thesis by simp
qed

end
